theory Spec2Isabelle
  imports Main "HOL-Library.Multiset"
begin

section \<open>Module containers of flashlight: \<^verbatim>\<open>flashlight/fl/nn/modules/Container.cpp\<close>\<close>

text \<open>
  A shallow embedding of \<^verbatim>\<open>ModuleWrapper\<close>, \<^verbatim>\<open>Container\<close> and \<^verbatim>\<open>Sequential\<close>.

  \<^item> Modules live in a store, a map from addresses to module objects. The objects
    themselves belong to the external \<^verbatim>\<open>Module\<close> hierarchy, so their type is a
    parameter \<open>'m\<close>, and every virtual call the container code makes on a child
    (\<^verbatim>\<open>train\<close>, \<^verbatim>\<open>eval\<close>, \<^verbatim>\<open>forward\<close>, \<^verbatim>\<open>setParams\<close>, \<^verbatim>\<open>clone\<close>,
    \<^verbatim>\<open>prettyString\<close>, \<^verbatim>\<open>params\<close>) is a function parameter of the operation that makes it.
  \<^item> The container a method runs on (\<^verbatim>\<open>*this\<close>) is a record, passed in and returned.
  \<^item> An exception is a value of type \<open>failure\<close>; an operation that changes state returns
    the state reached together with its result, so that the state left behind by a
    \<^verbatim>\<open>throw\<close> is part of the model. Undefined behaviour of C++ (a null pointer
    dereferenced, \<^verbatim>\<open>operator[]\<close> out of bounds, a pointer to no object) is a failure
    of its own kind: the model says that the program reached it and nothing about what
    follows.
  \<^item> Indices are \<^verbatim>\<open>int\<close> in the source and \<open>int\<close> here; sizes stay far below \<open>2^31\<close>,
    and the conversions between \<^verbatim>\<open>int\<close> and \<^verbatim>\<open>size_t\<close> are written as range tests.
  \<^item> The source names its members \<^verbatim>\<open>params_\<close>, \<^verbatim>\<open>train_\<close>, \<^verbatim>\<open>childParamIdx_\<close>,
    \<^verbatim>\<open>modules_\<close> and \<^verbatim>\<open>ptr_\<close>; a name cannot end in an underscore here, so the
    fields drop it.
\<close>

subsection \<open>Failures\<close>

datatype failure =
    out_of_range          \<comment> \<open>\<^verbatim>\<open>std::out_of_range\<close>\<close>
  | invalid_argument      \<comment> \<open>\<^verbatim>\<open>std::invalid_argument\<close>\<close>
  | null_dereference      \<comment> \<open>undefined behaviour: member access through a null pointer\<close>
  | index_out_of_bounds   \<comment> \<open>undefined behaviour: \<^verbatim>\<open>operator[]\<close> of a vector out of bounds\<close>
  | dangling_pointer      \<comment> \<open>undefined behaviour: a pointer to no object of the store\<close>
  | bad_variant_access    \<comment> \<open>\<^verbatim>\<open>std::bad_variant_access\<close>, thrown by \<^verbatim>\<open>std::get\<close>\<close>

type_synonym addr = nat

type_synonym 'm store = "addr \<rightharpoonup> 'm"

subsection \<open>Variables\<close>

text \<open>
  Modelled from the spec: the class \<^verbatim>\<open>Variable\<close> (\<^verbatim>\<open>flashlight/fl/autograd/Variable.h\<close>)
  is not among the sources. The spec (section 6) gives what the container code uses of it:
  an opaque tensor value and a gradient-tracking flag set by \<^verbatim>\<open>setCalcGrad\<close>.
\<close>

record Variable =
  tensor :: int
  calcGrad :: bool

definition setCalcGrad :: "bool \<Rightarrow> Variable \<Rightarrow> Variable" where
  "setCalcGrad b v = v\<lparr>calcGrad := b\<rparr>"

subsection \<open>ModuleWrapper\<close>

text \<open>
  The member \<^verbatim>\<open>ptr_\<close> is a \<^verbatim>\<open>std::variant\<close> declared in \<^verbatim>\<open>Container.h\<close>, which is not
  among the sources. Its states are the ones \<^verbatim>\<open>Container.cpp\<close> tells apart:
  \<^verbatim>\<open>valueless_by_exception()\<close> (no alternative held), the alternative
  \<^verbatim>\<open>std::unique_ptr<Module>\<close> and the alternative \<^verbatim>\<open>std::shared_ptr<Module>\<close>; either
  pointer may be null (\<open>None\<close>).
\<close>

datatype ModuleWrapper =
    Valueless
  | UniquePtr "addr option"
  | SharedPtr "addr option"

text \<open>
  \<^verbatim>\<open>reset\<close>: the pointer of the alternative held becomes null and the alternative stays.
  The wrapper's state is what the function returns; releasing the module (destroyed when
  uniquely owned, one holder fewer when shared) is the lifetime management of the pointers
  and is not part of the model.
\<close>

definition ModuleWrapper_reset :: "ModuleWrapper \<Rightarrow> ModuleWrapper" where
  "ModuleWrapper_reset w =
     (case w of
        UniquePtr p \<Rightarrow> UniquePtr None
      | SharedPtr p \<Rightarrow> SharedPtr None
      | Valueless \<Rightarrow> Valueless)"

definition ModuleWrapper_get :: "ModuleWrapper \<Rightarrow> addr option" where
  "ModuleWrapper_get w =
     (case w of
        UniquePtr p \<Rightarrow> p
      | SharedPtr p \<Rightarrow> p
      | Valueless \<Rightarrow> None)"

text \<open>\<^verbatim>\<open>operator->\<close>: the same three branches as \<^verbatim>\<open>get\<close>.\<close>

definition ModuleWrapper_arrow :: "ModuleWrapper \<Rightarrow> addr option" where
  "ModuleWrapper_arrow w =
     (case w of
        UniquePtr p \<Rightarrow> p
      | SharedPtr p \<Rightarrow> p
      | Valueless \<Rightarrow> None)"

definition ModuleWrapper_bool :: "ModuleWrapper \<Rightarrow> bool" where
  "ModuleWrapper_bool w =
     (case w of
        Valueless \<Rightarrow> False
      | UniquePtr p \<Rightarrow> p \<noteq> None
      | SharedPtr p \<Rightarrow> p \<noteq> None)"

text \<open>
  \<^verbatim>\<open>make_shared\<close> returns the shared handle (or the exception of \<^verbatim>\<open>std::get\<close>) and
  the wrapper in its new state. Constructing a \<^verbatim>\<open>shared_ptr\<close> from the moved
  \<^verbatim>\<open>unique_ptr\<close> carries the pointer over: the address is the same, and no module of
  the store is read or written (the function does not take the store).
\<close>

definition ModuleWrapper_make_shared ::
  "ModuleWrapper \<Rightarrow> (failure + addr option) \<times> ModuleWrapper" where
  "ModuleWrapper_make_shared w =
     (if w = Valueless then (Inr None, w)
      else
        let w' = (case w of UniquePtr p \<Rightarrow> SharedPtr p | _ \<Rightarrow> w)
        in (case w' of
              SharedPtr q \<Rightarrow> (Inr q, w')
            | _ \<Rightarrow> (Inl bad_variant_access, w')))"

text \<open>
  The copy constructor. Its member starts default-initialised and is assigned in the
  first two branches only; the default-initialised state depends on the declaration of the
  variant, so it is the parameter \<open>init\<close>. \<^verbatim>\<open>clone\<close> is the virtual \<^verbatim>\<open>Module::clone\<close>,
  called through the \<^verbatim>\<open>unique_ptr\<close> without a test for null.
\<close>

definition ModuleWrapper_copy ::
  "(addr \<Rightarrow> 'm store \<Rightarrow> (failure + addr option) \<times> 'm store) \<Rightarrow> ModuleWrapper \<Rightarrow>
   ModuleWrapper \<Rightarrow> 'm store \<Rightarrow> (failure + ModuleWrapper) \<times> 'm store" where
  "ModuleWrapper_copy clone init other s =
     (case other of
        UniquePtr p \<Rightarrow>
          (case p of
             None \<Rightarrow> (Inl null_dereference, s)
           | Some a \<Rightarrow>
               (case clone a s of
                  (Inl e, s') \<Rightarrow> (Inl e, s')
                | (Inr q, s') \<Rightarrow> (Inr (UniquePtr q), s')))
      | SharedPtr p \<Rightarrow> (Inr (SharedPtr p), s)
      | Valueless \<Rightarrow> (Inr init, s))"

subsection \<open>Container\<close>

text \<open>
  The state of a container: the flat parameter list and the mode flag it inherits from
  \<^verbatim>\<open>Module\<close>, the index map from a flat position to (child index, local index), and the
  children.
\<close>

record Container =
  params :: "Variable list"
  train :: bool
  childParamIdx :: "int \<rightharpoonup> int \<times> int"
  modules :: "ModuleWrapper list"

text \<open>
  Modelled from the spec: \<^verbatim>\<open>Module::setParams\<close> (\<^verbatim>\<open>Module.cpp\<close>) is not among the
  sources. The spec (section 4.2) gives the base behaviour: it writes the value into the
  flat parameter sequence at the position, and fails with an out-of-range condition if the
  position is invalid.
\<close>

definition Module_setParams :: "Variable \<Rightarrow> int \<Rightarrow> Variable list \<Rightarrow> failure + Variable list" where
  "Module_setParams var position ps =
     (if 0 \<le> position \<and> position < int (length ps) then Inr (ps[nat position := var])
      else Inl out_of_range)"

text \<open>\<^verbatim>\<open>modules_[id]\<close>: the unchecked index of a vector.\<close>

definition Container_module :: "Container \<Rightarrow> int \<Rightarrow> failure + ModuleWrapper" where
  "Container_module c id' =
     (if 0 \<le> id' \<and> id' < int (length (modules c)) then Inr (modules c ! nat id')
      else Inl index_out_of_bounds)"

text \<open>
  The first loop of \<^verbatim>\<open>train\<close> and of \<^verbatim>\<open>eval\<close>, over the positions of the flat list;
  \<open>b\<close> is the flag that \<^verbatim>\<open>setCalcGrad\<close> receives.
\<close>

function own_params_loop ::
  "bool \<Rightarrow> (int \<rightharpoonup> int \<times> int) \<Rightarrow> nat \<Rightarrow> Variable list \<Rightarrow> Variable list" where
  "own_params_loop b idx i ps =
     (if i < length ps then
        own_params_loop b idx (i + 1)
          (if idx (int i) = None then ps[i := setCalcGrad b (ps ! i)] else ps)
      else ps)"
  by pat_completeness auto
termination
  by (relation "measure (\<lambda>(b, idx, i, ps). length ps - i)") auto

declare own_params_loop.simps [simp del]

text \<open>
  The second loop, over the children in the order of the vector: \<open>call\<close> is the virtual
  method invoked through \<^verbatim>\<open>operator->\<close>. An exception of a child ends the loop.
\<close>

fun modules_loop ::
  "(addr \<Rightarrow> 'm store \<Rightarrow> (failure + unit) \<times> 'm store) \<Rightarrow> ModuleWrapper list \<Rightarrow> 'm store \<Rightarrow>
   (failure + unit) \<times> 'm store" where
  "modules_loop call [] s = (Inr (), s)"
| "modules_loop call (w # ws) s =
     (case ModuleWrapper_arrow w of
        None \<Rightarrow> (Inl null_dereference, s)
      | Some a \<Rightarrow>
          (case call a s of
             (Inl e, s') \<Rightarrow> (Inl e, s')
           | (Inr u, s') \<Rightarrow> modules_loop call ws s'))"

definition Container_train ::
  "(addr \<Rightarrow> 'm store \<Rightarrow> (failure + unit) \<times> 'm store) \<Rightarrow> Container \<Rightarrow> 'm store \<Rightarrow>
   (failure + unit) \<times> Container \<times> 'm store" where
  "Container_train child_train c s =
     (let c1 = c\<lparr>train := True\<rparr>;
          c2 = c1\<lparr>params := own_params_loop True (childParamIdx c1) 0 (params c1)\<rparr>
      in (case modules_loop child_train (modules c2) s of
            (r, s') \<Rightarrow> (r, c2, s')))"

definition Container_eval ::
  "(addr \<Rightarrow> 'm store \<Rightarrow> (failure + unit) \<times> 'm store) \<Rightarrow> Container \<Rightarrow> 'm store \<Rightarrow>
   (failure + unit) \<times> Container \<times> 'm store" where
  "Container_eval child_eval c s =
     (let c1 = c\<lparr>train := False\<rparr>;
          c2 = c1\<lparr>params := own_params_loop False (childParamIdx c1) 0 (params c1)\<rparr>
      in (case modules_loop child_eval (modules c2) s of
            (r, s') \<Rightarrow> (r, c2, s')))"

text \<open>
  \<^verbatim>\<open>setParams\<close>: the base call first, then the write through to the child.
  \<open>child_setParams\<close> is the child's virtual \<^verbatim>\<open>setParams\<close>.
\<close>

definition Container_setParams ::
  "(addr \<Rightarrow> Variable \<Rightarrow> int \<Rightarrow> 'm store \<Rightarrow> (failure + unit) \<times> 'm store) \<Rightarrow>
   Variable \<Rightarrow> int \<Rightarrow> Container \<Rightarrow> 'm store \<Rightarrow> (failure + unit) \<times> Container \<times> 'm store" where
  "Container_setParams child_setParams var position c s =
     (case Module_setParams var position (params c) of
        Inl e \<Rightarrow> (Inl e, c, s)
      | Inr ps \<Rightarrow>
          (let c' = c\<lparr>params := ps\<rparr> in
           case childParamIdx c' position of
             None \<Rightarrow> (Inr (), c', s)
           | Some (midx, pidx) \<Rightarrow>
               if 0 \<le> midx \<and> midx < int (length (modules c')) then
                 (case ModuleWrapper_arrow (modules c' ! nat midx) of
                    None \<Rightarrow> (Inl null_dereference, c', s)
                  | Some a \<Rightarrow>
                      (case child_setParams a var pidx s of
                         (r, s') \<Rightarrow> (r, c', s')))
               else (Inl index_out_of_bounds, c', s)))"

text \<open>
  Modelled from the spec: the same base \<^verbatim>\<open>Module::setParams\<close>, as the virtual call
  resolves on a child that does not override it. The child is an object of the store whose
  state is its own parameter list.
\<close>

definition child_Module_setParams ::
  "addr \<Rightarrow> Variable \<Rightarrow> int \<Rightarrow> Variable list store \<Rightarrow> (failure + unit) \<times> Variable list store" where
  "child_Module_setParams a var position s =
     (case s a of
        None \<Rightarrow> (Inl dangling_pointer, s)
      | Some ps \<Rightarrow>
          (case Module_setParams var position ps of
             Inl e \<Rightarrow> (Inl e, s)
           | Inr ps' \<Rightarrow> (Inr (), s(a \<mapsto> ps'))))"

text \<open>
  \<^verbatim>\<open>getOrphanedParamsIdxMap\<close>. The loop has no bound of its own: at a position with an
  entry it advances by the size of the child's \<^verbatim>\<open>params()\<close>, which may be zero, so it is
  a partial function and \<open>None\<close> is the run that never ends. \<^verbatim>\<open>modules_.at(midx)\<close> is
  the checked index. \<open>child_params\<close> is \<^verbatim>\<open>Module::params()\<close> of the child. The
  \<^verbatim>\<open>unordered_multimap\<close> returned is a multiset of (key, value) pairs.
\<close>

partial_function (option) orphaned_loop ::
  "('m \<Rightarrow> Variable list) \<Rightarrow> Container \<Rightarrow> 'm store \<Rightarrow> nat \<Rightarrow> int \<Rightarrow> (int \<times> int) multiset \<Rightarrow>
   (failure + (int \<times> int) multiset) option" where
  "orphaned_loop child_params c s i prevMidx orphanedParamsIdxMap =
     (if i < length (params c) then
        (case childParamIdx c (int i) of
           Some (midx, pidx) \<Rightarrow>
             if 0 \<le> midx \<and> midx < int (length (modules c)) then
               (case ModuleWrapper_arrow (modules c ! nat midx) of
                  None \<Rightarrow> Some (Inl null_dereference)
                | Some a \<Rightarrow>
                    (case s a of
                       None \<Rightarrow> Some (Inl dangling_pointer)
                     | Some m \<Rightarrow>
                         orphaned_loop child_params c s (i + length (child_params m)) midx
                           orphanedParamsIdxMap))
             else Some (Inl out_of_range)
         | None \<Rightarrow>
             orphaned_loop child_params c s (i + 1) prevMidx
               (add_mset (prevMidx, int i) orphanedParamsIdxMap))
      else Some (Inr orphanedParamsIdxMap))"

definition Container_getOrphanedParamsIdxMap ::
  "('m \<Rightarrow> Variable list) \<Rightarrow> Container \<Rightarrow> 'm store \<Rightarrow> (failure + (int \<times> int) multiset) option" where
  "Container_getOrphanedParamsIdxMap child_params c s = orphaned_loop child_params c s 0 (- 1) {#}"

text \<open>
  \<^verbatim>\<open>prettyString\<close>. \<^verbatim>\<open>ss << i\<close> prints the \<^verbatim>\<open>int\<close> in decimal; the loop counters are
  never negative. \<open>child_pretty\<close> is the child's virtual \<^verbatim>\<open>prettyString\<close>, a
  \<^verbatim>\<open>const\<close> method.
\<close>

definition digit :: "nat \<Rightarrow> char" where
  "digit d = ''0123456789'' ! d"

function decimal :: "nat \<Rightarrow> string" where
  "decimal n = (if n < 10 then [digit n] else decimal (n div 10) @ [digit (n mod 10)])"
  by pat_completeness auto
termination
  by (relation "measure (\<lambda>n. n)") auto

declare decimal.simps [simp del]

function arrows_loop :: "nat \<Rightarrow> nat \<Rightarrow> string \<Rightarrow> string" where
  "arrows_loop i n ss =
     (if i < n then arrows_loop (i + 1) n (ss @ '' -> ('' @ decimal i @ '')'') else ss)"
  by pat_completeness auto
termination
  by (relation "measure (\<lambda>(i, n, ss). n - i)") auto

declare arrows_loop.simps [simp del]

function lines_loop ::
  "(addr \<Rightarrow> 'm store \<Rightarrow> string) \<Rightarrow> ModuleWrapper list \<Rightarrow> 'm store \<Rightarrow> nat \<Rightarrow> string \<Rightarrow>
   failure + string" where
  "lines_loop child_pretty ws s i ss =
     (if i < length ws then
        (case ModuleWrapper_arrow (ws ! i) of
           None \<Rightarrow> Inl null_dereference
         | Some a \<Rightarrow>
             lines_loop child_pretty ws s (i + 1)
               (ss @ [CHR 0x0A, CHR 0x09] @ ''('' @ decimal i @ ''): '' @ child_pretty a s))
      else Inr ss)"
  by pat_completeness auto
termination
  by (relation "measure (\<lambda>(child_pretty, ws, s, i, ss). length ws - i)") auto

declare lines_loop.simps [simp del]

definition Container_prettyString ::
  "(addr \<Rightarrow> 'm store \<Rightarrow> string) \<Rightarrow> Container \<Rightarrow> 'm store \<Rightarrow> failure + string" where
  "Container_prettyString child_pretty c s =
     lines_loop child_pretty (modules c) s 0
       (arrows_loop 0 (length (modules c)) ([] @ '' [input'') @ '' -> output]'')"

subsection \<open>Sequential\<close>

text \<open>A \<^verbatim>\<open>Sequential\<close> is a \<^verbatim>\<open>Container\<close> with no state of its own.\<close>

type_synonym Sequential = Container

fun forward_loop ::
  "(addr \<Rightarrow> Variable list \<Rightarrow> 'm store \<Rightarrow> (failure + Variable list) \<times> 'm store) \<Rightarrow>
   ModuleWrapper list \<Rightarrow> Variable list \<Rightarrow> 'm store \<Rightarrow> (failure + Variable list) \<times> 'm store" where
  "forward_loop child_forward [] output s = (Inr output, s)"
| "forward_loop child_forward (w # ws) output s =
     (case ModuleWrapper_arrow w of
        None \<Rightarrow> (Inl null_dereference, s)
      | Some a \<Rightarrow>
          (case child_forward a output s of
             (Inl e, s') \<Rightarrow> (Inl e, s')
           | (Inr output', s') \<Rightarrow> forward_loop child_forward ws output' s'))"

definition Sequential_forward ::
  "(addr \<Rightarrow> Variable list \<Rightarrow> 'm store \<Rightarrow> (failure + Variable list) \<times> 'm store) \<Rightarrow>
   Sequential \<Rightarrow> Variable list \<Rightarrow> 'm store \<Rightarrow> (failure + Variable list) \<times> 'm store" where
  "Sequential_forward child_forward c input s = forward_loop child_forward (modules c) input s"

text \<open>The overload for a single \<^verbatim>\<open>Variable\<close>; \<^verbatim>\<open>output.front()\<close> is the first element.\<close>

definition Sequential_forward1 ::
  "(addr \<Rightarrow> Variable list \<Rightarrow> 'm store \<Rightarrow> (failure + Variable list) \<times> 'm store) \<Rightarrow>
   Sequential \<Rightarrow> Variable \<Rightarrow> 'm store \<Rightarrow> (failure + Variable) \<times> 'm store" where
  "Sequential_forward1 child_forward c input s =
     (case forward_loop child_forward (modules c) [input] s of
        (Inl e, s') \<Rightarrow> (Inl e, s')
      | (Inr output, s') \<Rightarrow>
          if length output \<noteq> 1 then (Inl invalid_argument, s')
          else (Inr (hd output), s'))"

definition Sequential_call ::
  "(addr \<Rightarrow> Variable list \<Rightarrow> 'm store \<Rightarrow> (failure + Variable list) \<times> 'm store) \<Rightarrow>
   Sequential \<Rightarrow> Variable \<Rightarrow> 'm store \<Rightarrow> (failure + Variable) \<times> 'm store" where
  "Sequential_call child_forward c input s = Sequential_forward1 child_forward c input s"

definition Sequential_prettyString ::
  "(addr \<Rightarrow> 'm store \<Rightarrow> string) \<Rightarrow> Sequential \<Rightarrow> 'm store \<Rightarrow> failure + string" where
  "Sequential_prettyString child_pretty c s =
     lines_loop child_pretty (modules c) s 0
       (arrows_loop 0 (length (modules c)) (''Sequential'' @ '' [input'') @ '' -> output]'')"

subsection \<open>Example states\<close>

text \<open>
  A container with one child at address 7 that contributed the flat positions 0 and 1, and
  one parameter of its own at position 2; \<open>g\<close> is the flag of every parameter and the
  mode.
\<close>

definition example_container :: "bool \<Rightarrow> Container" where
  "example_container g =
     \<lparr>params = [\<lparr>tensor = 10, calcGrad = g\<rparr>, \<lparr>tensor = 11, calcGrad = g\<rparr>,
        \<lparr>tensor = 12, calcGrad = g\<rparr>],
      train = g,
      childParamIdx = [0 \<mapsto> (0, 0), 1 \<mapsto> (0, 1)],
      modules = [SharedPtr (Some 7)]\<rparr>"

text \<open>
  A pipeline of shared children given by their addresses. The child at address 9 returns
  its input twice; any other child adds its address to every tensor.
\<close>

definition example_forward ::
  "addr \<Rightarrow> Variable list \<Rightarrow> unit store \<Rightarrow> (failure + Variable list) \<times> unit store" where
  "example_forward a xs t =
     (Inr (if a = 9 then xs @ xs else map (\<lambda>x. x\<lparr>tensor := tensor x + int a\<rparr>) xs), t)"

definition example_sequential :: "addr list \<Rightarrow> Sequential" where
  "example_sequential as =
     \<lparr>params = [], train = True, childParamIdx = Map.empty,
      modules = map (\<lambda>a. SharedPtr (Some a)) as\<rparr>"

text \<open>
  Two children, at the addresses 1 and 2, that contributed two and three parameters, in
  a container whose flat list has \<open>n\<close> entries: with \<open>n = 5\<close> every parameter came
  from a child, with \<open>n = 6\<close> the last one was added to the container directly.
\<close>

definition example_param :: "int \<Rightarrow> Variable" where
  "example_param n = \<lparr>tensor = n, calcGrad = True\<rparr>"

definition example_two_children :: "nat \<Rightarrow> Container" where
  "example_two_children n =
     \<lparr>params = map (\<lambda>k. example_param (int k)) [0..<n],
      train = True,
      childParamIdx = [0 \<mapsto> (0, 0), 1 \<mapsto> (0, 1), 2 \<mapsto> (1, 0), 3 \<mapsto> (1, 1), 4 \<mapsto> (1, 2)],
      modules = [UniquePtr (Some 1), SharedPtr (Some 2)]\<rparr>"

definition example_children :: "Variable list store" where
  "example_children =
     [1 \<mapsto> [example_param 0, example_param 1],
      2 \<mapsto> [example_param 2, example_param 3, example_param 4]]"

section \<open>Properties\<close>

subsection \<open>ModuleWrapper\<close>

text \<open>
  Claim C2. Promotion to shared ownership: a wrapper that uniquely owns a module becomes a
  shared wrapper of the same address and returns that address (the module is moved, no
  store is involved); a shared wrapper returns its handle and stays as it is; a wrapper
  that holds no module (valueless, or a null pointer under either tag) returns null.
  In every state the call returns normally, the handle returned is the pointer the wrapper
  held, and the wrapper holds the same pointer afterwards.
\<close>

theorem make_shared_cases:
  "ModuleWrapper_make_shared (UniquePtr (Some a)) = (Inr (Some a), SharedPtr (Some a)) \<and>
   ModuleWrapper_make_shared (SharedPtr p) = (Inr p, SharedPtr p) \<and>
   ModuleWrapper_make_shared Valueless = (Inr None, Valueless) \<and>
   fst (ModuleWrapper_make_shared w) = Inr (ModuleWrapper_get w) \<and>
   ModuleWrapper_get (snd (ModuleWrapper_make_shared w)) = ModuleWrapper_get w"
  by (simp add: ModuleWrapper_make_shared_def ModuleWrapper_get_def
      split: ModuleWrapper.splits)

subsection \<open>The loops of \<^verbatim>\<open>train\<close> and \<^verbatim>\<open>eval\<close>\<close>

lemma own_params_loop_length:
  "length (own_params_loop b idx i ps) = length ps"
proof (induction b idx i ps rule: own_params_loop.induct)
  case (1 b idx i ps)
  show ?case
  proof (cases "i < length ps")
    case True
    with "1" show ?thesis by (subst own_params_loop.simps) simp
  next
    case False
    then show ?thesis by (subst own_params_loop.simps) simp
  qed
qed

lemma own_params_loop_nth:
  "j < length ps \<Longrightarrow>
   own_params_loop b idx i ps ! j =
     (if i \<le> j \<and> idx (int j) = None then setCalcGrad b (ps ! j) else ps ! j)"
proof (induction b idx i ps rule: own_params_loop.induct)
  case (1 b idx i ps)
  show ?case
  proof (cases "i < length ps")
    case True
    let ?ps' = "if idx (int i) = None then ps[i := setCalcGrad b (ps ! i)] else ps"
    have len: "j < length ?ps'" using "1.prems" by simp
    have step: "own_params_loop b idx i ps = own_params_loop b idx (i + 1) ?ps'"
      using True by (subst own_params_loop.simps) simp
    have ih: "own_params_loop b idx (i + 1) ?ps' ! j =
      (if i + 1 \<le> j \<and> idx (int j) = None then setCalcGrad b (?ps' ! j) else ?ps' ! j)"
      using "1.IH" [OF True len] .
    show ?thesis
    proof (cases "j = i")
      case True
      then show ?thesis using step ih "1.prems" by simp
    next
      case False
      then show ?thesis using step ih "1.prems" by (auto simp: nth_list_update)
    qed
  next
    case False
    then show ?thesis using "1.prems" by (subst own_params_loop.simps) simp
  qed
qed

lemma modules_loop_returns:
  "modules_loop call ws s = (Inr u, s') \<Longrightarrow>
   (\<forall>w \<in> set ws. ModuleWrapper_arrow w \<noteq> None) \<and>
   s' = fold (\<lambda>w t. snd (call (the (ModuleWrapper_arrow w)) t)) ws s"
proof (induction ws arbitrary: s)
  case Nil
  then show ?case by simp
next
  case (Cons w ws)
  then show ?case by (auto split: option.splits prod.splits sum.splits)
qed

lemma modules_loop_total:
  "\<forall>w \<in> set ws. ModuleWrapper_arrow w \<noteq> None \<Longrightarrow> \<forall>a t. fst (call a t) = Inr () \<Longrightarrow>
   fst (modules_loop call ws s) = Inr ()"
proof (induction ws arbitrary: s)
  case Nil
  then show ?case by simp
next
  case (Cons w ws)
  obtain a where a: "ModuleWrapper_arrow w = Some a" using Cons.prems(1) by auto
  obtain t where t: "call a s = (Inr (), t)" using Cons.prems(2) by (metis fst_conv surj_pair)
  have "fst (modules_loop call ws t) = Inr ()"
    using Cons.IH Cons.prems by simp
  then show ?case using a t by simp
qed

lemma mode_switch_post:
  assumes c2: "c2 = c\<lparr>train := b, params := own_params_loop b (childParamIdx c) 0 (params c)\<rparr>"
    and loop: "modules_loop call (modules c) s = (r, s')"
  shows "train c2 = b \<and> childParamIdx c2 = childParamIdx c \<and> modules c2 = modules c \<and>
     length (params c2) = length (params c) \<and>
     (\<forall>i < length (params c). params c2 ! i =
        (if childParamIdx c (int i) = None then setCalcGrad b (params c ! i)
         else params c ! i)) \<and>
     (r, s') = modules_loop call (modules c) s \<and>
     (r = Inr () \<longrightarrow>
        (\<forall>w \<in> set (modules c). ModuleWrapper_arrow w \<noteq> None) \<and>
        s' = fold (\<lambda>w t. snd (call (the (ModuleWrapper_arrow w)) t)) (modules c) s) \<and>
     ((\<forall>w \<in> set (modules c). ModuleWrapper_arrow w \<noteq> None) \<and>
      (\<forall>a t. fst (call a t) = Inr ()) \<longrightarrow> r = Inr ())"
proof -
  have p: "params c2 = own_params_loop b (childParamIdx c) 0 (params c)"
    using c2 by simp
  have 1: "train c2 = b" "childParamIdx c2 = childParamIdx c" "modules c2 = modules c"
    using c2 by simp_all
  have 2: "length (params c2) = length (params c)"
    unfolding p by (rule own_params_loop_length)
  have 3: "\<forall>i < length (params c). params c2 ! i =
        (if childParamIdx c (int i) = None then setCalcGrad b (params c ! i)
         else params c ! i)"
    unfolding p by (simp add: own_params_loop_nth)
  have 4: "r = Inr () \<longrightarrow>
        (\<forall>w \<in> set (modules c). ModuleWrapper_arrow w \<noteq> None) \<and>
        s' = fold (\<lambda>w t. snd (call (the (ModuleWrapper_arrow w)) t)) (modules c) s"
    using modules_loop_returns [of call "modules c" s "()" s'] loop by blast
  have 5: "(\<forall>w \<in> set (modules c). ModuleWrapper_arrow w \<noteq> None) \<and>
      (\<forall>a t. fst (call a t) = Inr ()) \<longrightarrow> r = Inr ()"
    using modules_loop_total [of "modules c" call s] loop by simp
  from 1 2 3 4 5 loop [symmetric] show ?thesis by blast
qed

text \<open>
  Claim C3. \<^verbatim>\<open>train\<close> sets the mode flag, enables gradient tracking on exactly the
  flat-list parameters whose position has no entry in the index map (every other
  parameter, the index map and the children vector are as before), and then calls
  \<^verbatim>\<open>train\<close> on the children in order: the result and the store are those of the loop
  over the children started in the store as it was, and when the call returns normally the
  store is the one reached by calling every child in turn; when no child is null and no
  call raises, it returns normally. The container is in its new state whatever the
  children do, since its own parameters are processed first. \<^verbatim>\<open>eval\<close> is the same
  with the flag false.
\<close>

theorem train_eval_own_params_then_children:
  "(case Container_train child_train c s of
      (r, c', s') \<Rightarrow>
        train c' = True \<and> childParamIdx c' = childParamIdx c \<and> modules c' = modules c \<and>
        length (params c') = length (params c) \<and>
        (\<forall>i < length (params c). params c' ! i =
           (if childParamIdx c (int i) = None then setCalcGrad True (params c ! i)
            else params c ! i)) \<and>
        (r, s') = modules_loop child_train (modules c) s \<and>
        (r = Inr () \<longrightarrow>
           (\<forall>w \<in> set (modules c). ModuleWrapper_arrow w \<noteq> None) \<and>
           s' = fold (\<lambda>w t. snd (child_train (the (ModuleWrapper_arrow w)) t)) (modules c) s) \<and>
        ((\<forall>w \<in> set (modules c). ModuleWrapper_arrow w \<noteq> None) \<and>
         (\<forall>a t. fst (child_train a t) = Inr ()) \<longrightarrow> r = Inr ())) \<and>
   (case Container_eval child_eval c s of
      (r, c', s') \<Rightarrow>
        train c' = False \<and> childParamIdx c' = childParamIdx c \<and> modules c' = modules c \<and>
        length (params c') = length (params c) \<and>
        (\<forall>i < length (params c). params c' ! i =
           (if childParamIdx c (int i) = None then setCalcGrad False (params c ! i)
            else params c ! i)) \<and>
        (r, s') = modules_loop child_eval (modules c) s \<and>
        (r = Inr () \<longrightarrow>
           (\<forall>w \<in> set (modules c). ModuleWrapper_arrow w \<noteq> None) \<and>
           s' = fold (\<lambda>w t. snd (child_eval (the (ModuleWrapper_arrow w)) t)) (modules c) s) \<and>
        ((\<forall>w \<in> set (modules c). ModuleWrapper_arrow w \<noteq> None) \<and>
         (\<forall>a t. fst (child_eval a t) = Inr ()) \<longrightarrow> r = Inr ()))"
proof (rule conjI)
  obtain r s' where t: "modules_loop child_train (modules c) s = (r, s')"
    by (cases "modules_loop child_train (modules c) s")
  have ct: "Container_train child_train c s =
      (r, c\<lparr>train := True, params := own_params_loop True (childParamIdx c) 0 (params c)\<rparr>, s')"
    using t by (simp add: Container_train_def)
  show "case Container_train child_train c s of
      (r, c', s') \<Rightarrow>
        train c' = True \<and> childParamIdx c' = childParamIdx c \<and> modules c' = modules c \<and>
        length (params c') = length (params c) \<and>
        (\<forall>i < length (params c). params c' ! i =
           (if childParamIdx c (int i) = None then setCalcGrad True (params c ! i)
            else params c ! i)) \<and>
        (r, s') = modules_loop child_train (modules c) s \<and>
        (r = Inr () \<longrightarrow>
           (\<forall>w \<in> set (modules c). ModuleWrapper_arrow w \<noteq> None) \<and>
           s' = fold (\<lambda>w t. snd (child_train (the (ModuleWrapper_arrow w)) t)) (modules c) s) \<and>
        ((\<forall>w \<in> set (modules c). ModuleWrapper_arrow w \<noteq> None) \<and>
         (\<forall>a t. fst (child_train a t) = Inr ()) \<longrightarrow> r = Inr ())"
    unfolding ct prod.case by (rule mode_switch_post [OF refl t])
next
  obtain q u' where e: "modules_loop child_eval (modules c) s = (q, u')"
    by (cases "modules_loop child_eval (modules c) s")
  have ce: "Container_eval child_eval c s =
      (q, c\<lparr>train := False, params := own_params_loop False (childParamIdx c) 0 (params c)\<rparr>, u')"
    using e by (simp add: Container_eval_def)
  show "case Container_eval child_eval c s of
      (r, c', s') \<Rightarrow>
        train c' = False \<and> childParamIdx c' = childParamIdx c \<and> modules c' = modules c \<and>
        length (params c') = length (params c) \<and>
        (\<forall>i < length (params c). params c' ! i =
           (if childParamIdx c (int i) = None then setCalcGrad False (params c ! i)
            else params c ! i)) \<and>
        (r, s') = modules_loop child_eval (modules c) s \<and>
        (r = Inr () \<longrightarrow>
           (\<forall>w \<in> set (modules c). ModuleWrapper_arrow w \<noteq> None) \<and>
           s' = fold (\<lambda>w t. snd (child_eval (the (ModuleWrapper_arrow w)) t)) (modules c) s) \<and>
        ((\<forall>w \<in> set (modules c). ModuleWrapper_arrow w \<noteq> None) \<and>
         (\<forall>a t. fst (child_eval a t) = Inr ()) \<longrightarrow> r = Inr ())"
    unfolding ce prod.case by (rule mode_switch_post [OF refl e])
qed

theorem train_eval_own_params_then_children_witness:
  "(case Container_train (\<lambda>a t. (Inr (), t(a \<mapsto> True))) (example_container False)
           [7 \<mapsto> False] of
      (r, c', s') \<Rightarrow>
        r = Inr () \<and> train c' = True \<and>
        params c' ! 0 = \<lparr>tensor = 10, calcGrad = False\<rparr> \<and>
        params c' ! 2 = \<lparr>tensor = 12, calcGrad = True\<rparr> \<and>
        s' = [7 \<mapsto> True]) \<and>
   (case Container_eval (\<lambda>a t. (Inr (), t(a \<mapsto> False))) (example_container True)
           [7 \<mapsto> True] of
      (r, c', s') \<Rightarrow>
        r = Inr () \<and> train c' = False \<and>
        params c' ! 0 = \<lparr>tensor = 10, calcGrad = True\<rparr> \<and>
        params c' ! 2 = \<lparr>tensor = 12, calcGrad = False\<rparr> \<and>
        s' = [7 \<mapsto> False])"
proof -
  let ?tr = "\<lambda>a (t :: bool store). (Inr () :: failure + unit, t(a \<mapsto> True))"
  let ?ev = "\<lambda>a (t :: bool store). (Inr () :: failure + unit, t(a \<mapsto> False))"
  note main = train_eval_own_params_then_children
      [where child_train = ?tr and child_eval = ?ev]
  have mods: "\<forall>w \<in> set (modules (example_container g)). ModuleWrapper_arrow w \<noteq> None" for g
    by (simp add: example_container_def ModuleWrapper_arrow_def)
  have len: "length (params (example_container g)) = 3" for g
    by (simp add: example_container_def)
  obtain r c' s' where
    t: "Container_train ?tr (example_container False) [7 \<mapsto> False] = (r, c', s')"
    by (metis surj_pair)
  note T = main [where c = "example_container False" and s = "[7 \<mapsto> False]",
      THEN conjunct1, unfolded t prod.case]
  from T mods have r: "r = Inr ()" by simp
  from T have "train c' = True" by blast
  moreover from T len have "params c' ! 0 = \<lparr>tensor = 10, calcGrad = False\<rparr>"
    by (simp add: example_container_def)
  moreover from T len have "params c' ! 2 = \<lparr>tensor = 12, calcGrad = True\<rparr>"
    by (simp add: example_container_def setCalcGrad_def)
  moreover from T r have "s' = [7 \<mapsto> True]"
    by (simp add: example_container_def ModuleWrapper_arrow_def)
  ultimately have A: "case Container_train ?tr (example_container False) [7 \<mapsto> False] of
      (r, c', s') \<Rightarrow>
        r = Inr () \<and> train c' = True \<and>
        params c' ! 0 = \<lparr>tensor = 10, calcGrad = False\<rparr> \<and>
        params c' ! 2 = \<lparr>tensor = 12, calcGrad = True\<rparr> \<and>
        s' = [7 \<mapsto> True]"
    unfolding t prod.case using r by blast
  obtain q d' u' where
    e: "Container_eval ?ev (example_container True) [7 \<mapsto> True] = (q, d', u')"
    by (metis surj_pair)
  note E = main [where c = "example_container True" and s = "[7 \<mapsto> True]",
      THEN conjunct2, unfolded e prod.case]
  from E mods have q: "q = Inr ()" by simp
  from E have "train d' = False" by blast
  moreover from E len have "params d' ! 0 = \<lparr>tensor = 10, calcGrad = True\<rparr>"
    by (simp add: example_container_def)
  moreover from E len have "params d' ! 2 = \<lparr>tensor = 12, calcGrad = False\<rparr>"
    by (simp add: example_container_def setCalcGrad_def)
  moreover from E q have "u' = [7 \<mapsto> False]"
    by (simp add: example_container_def ModuleWrapper_arrow_def)
  ultimately have B: "case Container_eval ?ev (example_container True) [7 \<mapsto> True] of
      (r, c', s') \<Rightarrow>
        r = Inr () \<and> train c' = False \<and>
        params c' ! 0 = \<lparr>tensor = 10, calcGrad = True\<rparr> \<and>
        params c' ! 2 = \<lparr>tensor = 12, calcGrad = False\<rparr> \<and>
        s' = [7 \<mapsto> False]"
    unfolding e prod.case using q by blast
  from A B show ?thesis by (rule conjI)
qed

subsection \<open>Index checks and \<^verbatim>\<open>setParams\<close>\<close>

text \<open>
  Claim C1, as stated, fails for \<^verbatim>\<open>module\<close>: the function indexes the children with the
  unchecked \<^verbatim>\<open>operator[]\<close>, so an invalid index raises no out-of-range condition; it
  is undefined behaviour. Here: index 0 of a container with no children.
\<close>

theorem module_unchecked_counterexample:
  "Container_module \<lparr>params = [], train = True, childParamIdx = Map.empty, modules = []\<rparr> 0
     = Inl index_out_of_bounds \<and>
   Container_module \<lparr>params = [], train = True, childParamIdx = Map.empty, modules = []\<rparr> 0
     \<noteq> Inl out_of_range"
  by (simp add: Container_module_def)

text \<open>
  Claim C1, amended. \<^verbatim>\<open>module(id)\<close> with a valid index returns the wrapper at that
  index (a \<^verbatim>\<open>const\<close> method: the container is not changed); it makes no bounds check,
  and an invalid index is undefined behaviour. \<^verbatim>\<open>setParams\<close> with an invalid position
  fails with the out-of-range condition of the base \<^verbatim>\<open>Module::setParams\<close>, which is
  called first: the container and the store are as before.
\<close>

theorem out_of_range_access:
  "(0 \<le> i \<and> i < int (length (modules c)) \<longrightarrow> Container_module c i = Inr (modules c ! nat i)) \<and>
   (\<not> (0 \<le> i \<and> i < int (length (modules c))) \<longrightarrow> Container_module c i = Inl index_out_of_bounds) \<and>
   (\<not> (0 \<le> position \<and> position < int (length (params c))) \<longrightarrow>
      Container_setParams child_setParams var position c s = (Inl out_of_range, c, s))"
  by (simp add: Container_module_def Container_setParams_def Module_setParams_def)

theorem out_of_range_access_witness:
  "Container_module \<lparr>params = [], train = True, childParamIdx = Map.empty,
      modules = [UniquePtr (Some 3)]\<rparr> 0 = Inr (UniquePtr (Some 3)) \<and>
   Container_module \<lparr>params = [], train = True, childParamIdx = Map.empty,
      modules = [UniquePtr (Some 3)]\<rparr> 1 = Inl index_out_of_bounds \<and>
   Container_setParams (\<lambda>a v p t. (Inr (), t)) \<lparr>tensor = 5, calcGrad = True\<rparr> 0
      \<lparr>params = [], train = True, childParamIdx = Map.empty, modules = [UniquePtr (Some 3)]\<rparr>
      (Map.empty :: unit store) =
     (Inl out_of_range,
      \<lparr>params = [], train = True, childParamIdx = Map.empty, modules = [UniquePtr (Some 3)]\<rparr>,
      Map.empty)"
  using out_of_range_access [where i = 0 and position = 0 and
      c = "\<lparr>params = [], train = True, childParamIdx = Map.empty, modules = [UniquePtr (Some 3)]\<rparr>"
      and child_setParams = "\<lambda>a v p t. (Inr (), t)" and var = "\<lparr>tensor = 5, calcGrad = True\<rparr>"
      and s = "Map.empty :: unit store"]
    out_of_range_access [where i = 1 and position = 0 and
      c = "\<lparr>params = [], train = True, childParamIdx = Map.empty, modules = [UniquePtr (Some 3)]\<rparr>"
      and child_setParams = "\<lambda>a v p t. (Inr (), t)" and var = "\<lparr>tensor = 5, calcGrad = True\<rparr>"
      and s = "Map.empty :: unit store"]
  by simp

text \<open>
  Claim C4. At a valid position \<^verbatim>\<open>setParams\<close> writes the value into the flat list at
  that position. Without an entry of the index map at the position nothing else changes.
  With an entry (child index, local index) that names a child holding a module, the
  child's \<^verbatim>\<open>setParams\<close> is called with the value and the local index, on the store as it
  was, and its result is the result of the call; when the child takes the base
  \<^verbatim>\<open>Module::setParams\<close> and the local index is valid for it, the call returns normally
  and the flat entry and the child's own entry both hold the value.
\<close>

theorem setParams_write_through:
  assumes "0 \<le> position" and "position < int (length (params c))"
  shows
  "(childParamIdx c position = None \<longrightarrow>
      Container_setParams child_setParams var position c s =
        (Inr (), c\<lparr>params := (params c)[nat position := var]\<rparr>, s)) \<and>
   (childParamIdx c position = Some (midx, pidx) \<and>
    0 \<le> midx \<and> midx < int (length (modules c)) \<and>
    ModuleWrapper_arrow (modules c ! nat midx) = Some a \<longrightarrow>
      Container_setParams child_setParams var position c s =
        (fst (child_setParams a var pidx s), c\<lparr>params := (params c)[nat position := var]\<rparr>,
         snd (child_setParams a var pidx s))) \<and>
   (childParamIdx c position = Some (midx, pidx) \<and>
    0 \<le> midx \<and> midx < int (length (modules c)) \<and>
    ModuleWrapper_arrow (modules c ! nat midx) = Some a \<and>
    t a = Some ps \<and> 0 \<le> pidx \<and> pidx < int (length ps) \<longrightarrow>
      (case Container_setParams child_Module_setParams var position c t of
         (r, c', t') \<Rightarrow>
           r = Inr () \<and> c' = c\<lparr>params := (params c)[nat position := var]\<rparr> \<and>
           t' = t(a \<mapsto> ps[nat pidx := var]) \<and>
           params c' ! nat position = var \<and> the (t' a) ! nat pidx = var))"
  using assms
  by (auto simp: Container_setParams_def Module_setParams_def child_Module_setParams_def
      split: prod.splits)

theorem setParams_write_through_witness:
  "Container_setParams child_Module_setParams \<lparr>tensor = 99, calcGrad = True\<rparr> 2
      (example_container False) [7 \<mapsto> [\<lparr>tensor = 10, calcGrad = False\<rparr>, \<lparr>tensor = 11, calcGrad = False\<rparr>]] =
     (Inr (),
      (example_container False)\<lparr>params := [\<lparr>tensor = 10, calcGrad = False\<rparr>,
         \<lparr>tensor = 11, calcGrad = False\<rparr>, \<lparr>tensor = 99, calcGrad = True\<rparr>]\<rparr>,
      [7 \<mapsto> [\<lparr>tensor = 10, calcGrad = False\<rparr>, \<lparr>tensor = 11, calcGrad = False\<rparr>]]) \<and>
   (case Container_setParams child_Module_setParams \<lparr>tensor = 99, calcGrad = True\<rparr> 1
      (example_container False) [7 \<mapsto> [\<lparr>tensor = 10, calcGrad = False\<rparr>, \<lparr>tensor = 11, calcGrad = False\<rparr>]] of
      (r, c', t') \<Rightarrow>
        r = Inr () \<and>
        params c' = [\<lparr>tensor = 10, calcGrad = False\<rparr>, \<lparr>tensor = 99, calcGrad = True\<rparr>,
          \<lparr>tensor = 12, calcGrad = False\<rparr>] \<and>
        t' = [7 \<mapsto> [\<lparr>tensor = 10, calcGrad = False\<rparr>, \<lparr>tensor = 99, calcGrad = True\<rparr>]])"
proof -
  let ?t = "[7 \<mapsto> [\<lparr>tensor = 10, calcGrad = False\<rparr>, \<lparr>tensor = 11, calcGrad = False\<rparr>]]"
  let ?var = "\<lparr>tensor = 99, calcGrad = True\<rparr>"
  have A: "Container_setParams child_Module_setParams ?var 2 (example_container False) ?t =
     (Inr (), (example_container False)\<lparr>params := (params (example_container False))[nat 2 := ?var]\<rparr>, ?t)"
    using setParams_write_through [where position = 2 and c = "example_container False"
        and child_setParams = child_Module_setParams and var = ?var and s = ?t, THEN conjunct1]
    by (simp add: example_container_def)
  have B: "case Container_setParams child_Module_setParams ?var 1 (example_container False) ?t of
         (r, c', t') \<Rightarrow>
           r = Inr () \<and>
           c' = (example_container False)\<lparr>params := (params (example_container False))[nat 1 := ?var]\<rparr> \<and>
           t' = ?t(7 \<mapsto> [\<lparr>tensor = 10, calcGrad = False\<rparr>, \<lparr>tensor = 11, calcGrad = False\<rparr>][nat 1 := ?var]) \<and>
           params c' ! nat 1 = ?var \<and> the (t' 7) ! nat 1 = ?var"
    using setParams_write_through [where position = 1 and c = "example_container False"
        and var = ?var and t = ?t and midx = 0 and pidx = 1 and a = 7
        and ps = "[\<lparr>tensor = 10, calcGrad = False\<rparr>, \<lparr>tensor = 11, calcGrad = False\<rparr>]",
        THEN conjunct2, THEN conjunct2]
    by (simp add: example_container_def ModuleWrapper_arrow_def)
  from A B show ?thesis
    by (auto simp: example_container_def split: prod.splits)
qed

subsection \<open>Copying a wrapper\<close>

text \<open>
  At a wrapper that holds a module the copy constructor dispatches on the alternative:
  from a unique pointer the copy uniquely owns what \<^verbatim>\<open>clone()\<close> of the module returns, in
  the store \<^verbatim>\<open>clone()\<close> leaves; from a shared pointer the copy is a shared wrapper of the
  same address and the store is untouched.
\<close>

lemma copy_of_held_module:
  "ModuleWrapper_copy clone init (UniquePtr (Some a)) s =
     (case clone a s of (Inl e, s') \<Rightarrow> (Inl e, s') | (Inr q, s') \<Rightarrow> (Inr (UniquePtr q), s')) \<and>
   ModuleWrapper_copy clone init (SharedPtr (Some a)) s = (Inr (SharedPtr (Some a)), s)"
  by (simp add: ModuleWrapper_copy_def)

text \<open>
  Claim C5, at the empty wrapper. A wrapper is empty after \<^verbatim>\<open>reset\<close>: it keeps its
  alternative with a null pointer, holds no module and tests false. Copying the empty
  shared wrapper yields an empty shared wrapper. Copying the empty unique wrapper does
  not yield a wrapper: the unique branch calls \<^verbatim>\<open>clone()\<close> through the null pointer, which
  the shared branch of the same constructor, \<^verbatim>\<open>get\<close>, \<^verbatim>\<open>operator bool\<close> and
  \<^verbatim>\<open>make_shared\<close> all handle.
\<close>

theorem copy_of_reset_unique_wrapper:
  "ModuleWrapper_reset (UniquePtr (Some a)) = UniquePtr None \<and>
   ModuleWrapper_get (ModuleWrapper_reset (UniquePtr (Some a))) = None \<and>
   ModuleWrapper_bool (ModuleWrapper_reset (UniquePtr (Some a))) = False \<and>
   ModuleWrapper_copy clone init (ModuleWrapper_reset (UniquePtr (Some a))) s =
     (Inl null_dereference, s) \<and>
   ModuleWrapper_copy clone init (ModuleWrapper_reset (SharedPtr (Some a))) s =
     (Inr (SharedPtr None), s) \<and>
   fst (ModuleWrapper_make_shared (ModuleWrapper_reset (UniquePtr (Some a)))) = Inr None"
  by (simp add: ModuleWrapper_reset_def ModuleWrapper_get_def ModuleWrapper_bool_def
      ModuleWrapper_copy_def ModuleWrapper_make_shared_def)

text \<open>
  Claim C10. A wrapper holding the unique alternative with a null pointer tests false under
  the boolean conversion, and copying it dereferences the null pointer; the wrapper with no
  alternative also tests false, and copying it succeeds. With a non-null unique pointer the
  constructor does nothing but call \<^verbatim>\<open>clone()\<close> and wrap its result.
\<close>

theorem copy_null_unique_pointer:
  "ModuleWrapper_bool (UniquePtr None) = False \<and>
   ModuleWrapper_copy clone init (UniquePtr None) s = (Inl null_dereference, s) \<and>
   ModuleWrapper_bool Valueless = False \<and>
   ModuleWrapper_copy clone init Valueless s = (Inr init, s) \<and>
   ModuleWrapper_copy clone init (UniquePtr (Some a)) s =
     (case clone a s of (Inl e, s') \<Rightarrow> (Inl e, s') | (Inr q, s') \<Rightarrow> (Inr (UniquePtr q), s'))"
  by (simp add: ModuleWrapper_copy_def ModuleWrapper_bool_def)

subsection \<open>\<^verbatim>\<open>Sequential::forward\<close>\<close>

lemma forward_loop_append:
  "forward_loop f (ws @ ws') xs s =
     (case forward_loop f ws xs s of
        (Inl e, s') \<Rightarrow> (Inl e, s')
      | (Inr ys, s') \<Rightarrow> forward_loop f ws' ys s')"
  by (induction ws arbitrary: xs s) (auto split: option.splits prod.splits sum.splits)

lemma forward_loop_pure:
  "\<forall>w \<in> set ws. ModuleWrapper_arrow w \<noteq> None \<Longrightarrow>
   \<forall>a xs t. f a xs t = (Inr (g a xs), t) \<Longrightarrow>
   forward_loop f ws xs s = (Inr (fold (\<lambda>w. g (the (ModuleWrapper_arrow w))) ws xs), s)"
  by (induction ws arbitrary: xs) auto

text \<open>
  Claim C7. The overload for one \<^verbatim>\<open>Variable\<close> runs the pipeline of the overload for a
  sequence on the one-element sequence, returns the element when the final output has
  exactly one, and raises \<^verbatim>\<open>invalid_argument\<close> when it has none or several; the call
  operator is this overload. The pipeline runs the children in the order of the vector,
  each on the output and in the store of the one before: a pipeline of two parts is the
  first part followed by the second, a pipeline of one child is that child's
  \<^verbatim>\<open>forward\<close>, and when every child computes a function of its input the result is the
  left-to-right fold of these functions.
\<close>

theorem forward_single_variable:
  "Sequential_forward1 child_forward c input s =
     (case Sequential_forward child_forward c [input] s of
        (Inl e, s') \<Rightarrow> (Inl e, s')
      | (Inr output, s') \<Rightarrow>
          (case output of
             [y] \<Rightarrow> (Inr y, s')
           | _ \<Rightarrow> (Inl invalid_argument, s'))) \<and>
   Sequential_call child_forward c input s = Sequential_forward1 child_forward c input s \<and>
   Sequential_forward child_forward (c\<lparr>modules := ws @ ws'\<rparr>) xs s =
     (case Sequential_forward child_forward (c\<lparr>modules := ws\<rparr>) xs s of
        (Inl e, s') \<Rightarrow> (Inl e, s')
      | (Inr ys, s') \<Rightarrow> Sequential_forward child_forward (c\<lparr>modules := ws'\<rparr>) ys s') \<and>
   (ModuleWrapper_arrow w = Some a \<longrightarrow>
      Sequential_forward child_forward (c\<lparr>modules := [w]\<rparr>) xs s = child_forward a xs s) \<and>
   ((\<forall>w \<in> set (modules c). ModuleWrapper_arrow w \<noteq> None) \<and>
    (\<forall>a xs t. child_forward a xs t = (Inr (g a xs), t)) \<longrightarrow>
      Sequential_forward child_forward c xs s =
        (Inr (fold (\<lambda>w. g (the (ModuleWrapper_arrow w))) (modules c) xs), s))"
proof -
  have 1: "Sequential_forward1 child_forward c input s =
     (case Sequential_forward child_forward c [input] s of
        (Inl e, s') \<Rightarrow> (Inl e, s')
      | (Inr output, s') \<Rightarrow>
          (case output of
             [y] \<Rightarrow> (Inr y, s')
           | _ \<Rightarrow> (Inl invalid_argument, s')))"
    by (simp add: Sequential_forward1_def Sequential_forward_def
        split: prod.splits sum.splits list.splits)
  have 2: "Sequential_call child_forward c input s = Sequential_forward1 child_forward c input s"
    by (simp add: Sequential_call_def)
  have 3: "Sequential_forward child_forward (c\<lparr>modules := ws @ ws'\<rparr>) xs s =
     (case Sequential_forward child_forward (c\<lparr>modules := ws\<rparr>) xs s of
        (Inl e, s') \<Rightarrow> (Inl e, s')
      | (Inr ys, s') \<Rightarrow> Sequential_forward child_forward (c\<lparr>modules := ws'\<rparr>) ys s')"
    by (simp add: Sequential_forward_def forward_loop_append split: prod.splits sum.splits)
  have 4: "ModuleWrapper_arrow w = Some a \<longrightarrow>
      Sequential_forward child_forward (c\<lparr>modules := [w]\<rparr>) xs s = child_forward a xs s"
    by (auto simp: Sequential_forward_def split: prod.splits sum.splits)
  have 5: "(\<forall>w \<in> set (modules c). ModuleWrapper_arrow w \<noteq> None) \<and>
    (\<forall>a xs t. child_forward a xs t = (Inr (g a xs), t)) \<longrightarrow>
      Sequential_forward child_forward c xs s =
        (Inr (fold (\<lambda>w. g (the (ModuleWrapper_arrow w))) (modules c) xs), s)"
    using forward_loop_pure [of "modules c" child_forward g xs s]
    by (simp add: Sequential_forward_def)
  from 1 2 3 4 5 show ?thesis by blast
qed

theorem forward_single_variable_witness:
  "Sequential_forward1 example_forward (example_sequential [1, 2, 3])
      \<lparr>tensor = 0, calcGrad = False\<rparr> Map.empty =
     (Inr \<lparr>tensor = 6, calcGrad = False\<rparr>, Map.empty) \<and>
   Sequential_call example_forward (example_sequential [1, 2, 9])
      \<lparr>tensor = 0, calcGrad = False\<rparr> Map.empty =
     (Inl invalid_argument, Map.empty)"
proof -
  let ?g = "\<lambda>a xs. if a = 9 then xs @ xs else map (\<lambda>x. x\<lparr>tensor := tensor x + int a\<rparr>) xs"
  let ?x = "\<lparr>tensor = 0, calcGrad = False\<rparr>"
  note main = forward_single_variable [where child_forward = example_forward and g = ?g
      and input = ?x and xs = "[?x]" and s = Map.empty]
  have pure: "\<forall>a xs t. example_forward a xs t = (Inr (?g a xs), t)"
    by (simp add: example_forward_def)
  have mods: "\<forall>w \<in> set (modules (example_sequential as)). ModuleWrapper_arrow w \<noteq> None" for as
    by (simp add: example_sequential_def ModuleWrapper_arrow_def)
  have A: "Sequential_forward example_forward (example_sequential [1, 2, 3]) [?x] Map.empty =
      (Inr [\<lparr>tensor = 6, calcGrad = False\<rparr>], Map.empty)"
    using main [where c = "example_sequential [1, 2, 3]", THEN conjunct2, THEN conjunct2,
        THEN conjunct2, THEN conjunct2] pure mods
    by (simp add: example_sequential_def ModuleWrapper_arrow_def)
  have B: "Sequential_forward example_forward (example_sequential [1, 2, 9]) [?x] Map.empty =
      (Inr [\<lparr>tensor = 3, calcGrad = False\<rparr>, \<lparr>tensor = 3, calcGrad = False\<rparr>], Map.empty)"
    using main [where c = "example_sequential [1, 2, 9]", THEN conjunct2, THEN conjunct2,
        THEN conjunct2, THEN conjunct2] pure mods
    by (simp add: example_sequential_def ModuleWrapper_arrow_def)
  have C: "Sequential_forward1 example_forward (example_sequential [1, 2, 3]) ?x Map.empty =
     (Inr \<lparr>tensor = 6, calcGrad = False\<rparr>, Map.empty)"
    using main [where c = "example_sequential [1, 2, 3]", THEN conjunct1, unfolded A] by simp
  have D: "Sequential_call example_forward (example_sequential [1, 2, 9]) ?x Map.empty =
     (Inl invalid_argument, Map.empty)"
    using main [where c = "example_sequential [1, 2, 9]", THEN conjunct1, unfolded B]
      main [where c = "example_sequential [1, 2, 9]", THEN conjunct2, THEN conjunct1]
    by simp
  from C D show ?thesis by (rule conjI)
qed

text \<open>
  Claim C9. With no children, \<^verbatim>\<open>forward\<close> of a sequence returns the sequence and
  \<^verbatim>\<open>forward\<close> of one \<^verbatim>\<open>Variable\<close> returns it, in the store as it was.
\<close>

theorem forward_no_children:
  assumes "modules c = []"
  shows "Sequential_forward child_forward c xs s = (Inr xs, s) \<and>
         Sequential_forward1 child_forward c x s = (Inr x, s)"
  using assms by (simp add: Sequential_forward_def Sequential_forward1_def)

theorem forward_no_children_witness:
  "Sequential_forward (\<lambda>a xs t. (Inl invalid_argument, t))
      \<lparr>params = [], train = True, childParamIdx = Map.empty, modules = []\<rparr>
      [\<lparr>tensor = 1, calcGrad = False\<rparr>, \<lparr>tensor = 2, calcGrad = False\<rparr>] (Map.empty :: unit store) =
     (Inr [\<lparr>tensor = 1, calcGrad = False\<rparr>, \<lparr>tensor = 2, calcGrad = False\<rparr>], Map.empty) \<and>
   Sequential_forward1 (\<lambda>a xs t. (Inl invalid_argument, t))
      \<lparr>params = [], train = True, childParamIdx = Map.empty, modules = []\<rparr>
      \<lparr>tensor = 1, calcGrad = False\<rparr> (Map.empty :: unit store) =
     (Inr \<lparr>tensor = 1, calcGrad = False\<rparr>, Map.empty)"
  using forward_no_children [where c = "\<lparr>params = [], train = True, childParamIdx = Map.empty, modules = []\<rparr>"
      and child_forward = "\<lambda>a xs (t :: unit store). (Inl invalid_argument, t)"
      and xs = "[\<lparr>tensor = 1, calcGrad = False\<rparr>, \<lparr>tensor = 2, calcGrad = False\<rparr>]"
      and x = "\<lparr>tensor = 1, calcGrad = False\<rparr>" and s = Map.empty]
  by simp

subsection \<open>\<^verbatim>\<open>getOrphanedParamsIdxMap\<close>\<close>

lemma orphaned_loop_entry:
  assumes "i < length (params c)" and "childParamIdx c (int i) = Some (midx, pidx)"
    and "0 \<le> midx" and "midx < int (length (modules c))"
    and "ModuleWrapper_arrow (modules c ! nat midx) = Some a" and "s a = Some m"
  shows "orphaned_loop P c s i prev acc = orphaned_loop P c s (i + length (P m)) midx acc"
  using assms by (subst orphaned_loop.simps) simp

lemma orphaned_loop_orphan:
  assumes "i < length (params c)" and "childParamIdx c (int i) = None"
  shows "orphaned_loop P c s i prev acc =
         orphaned_loop P c s (i + 1) prev (add_mset (prev, int i) acc)"
  using assms by (subst orphaned_loop.simps) simp

lemma orphaned_loop_end:
  assumes "length (params c) \<le> i"
  shows "orphaned_loop P c s i prev acc = Some (Inr acc)"
  using assms by (subst orphaned_loop.simps) simp

lemma orphaned_loop_all_registered:
  assumes wf: "\<forall>j < length (params c). \<exists>midx pidx a m.
      childParamIdx c (int j) = Some (midx, pidx) \<and> 0 \<le> midx \<and> midx < int (length (modules c)) \<and>
      ModuleWrapper_arrow (modules c ! nat midx) = Some a \<and> s a = Some m \<and> 0 < length (P m)"
  shows "orphaned_loop P c s i prev acc = Some (Inr acc)"
proof (induction "length (params c) - i" arbitrary: i prev rule: less_induct)
  case less
  show ?case
  proof (cases "i < length (params c)")
    case True
    then obtain midx pidx a m where e: "childParamIdx c (int i) = Some (midx, pidx)"
      and r: "0 \<le> midx" "midx < int (length (modules c))"
      and a: "ModuleWrapper_arrow (modules c ! nat midx) = Some a" and m: "s a = Some m"
      and pos: "0 < length (P m)"
      using wf by blast
    have step: "orphaned_loop P c s i prev acc = orphaned_loop P c s (i + length (P m)) midx acc"
      using True e r a m by (rule orphaned_loop_entry)
    have "length (params c) - (i + length (P m)) < length (params c) - i"
      using True pos by arith
    then have "orphaned_loop P c s (i + length (P m)) midx acc = Some (Inr acc)"
      by (rule less)
    with step show ?thesis by simp
  next
    case False
    then show ?thesis by (simp add: orphaned_loop_end)
  qed
qed

lemma orphaned_loop_no_entries:
  assumes none: "\<forall>j < length (params c). childParamIdx c (int j) = None"
  shows "orphaned_loop P c s i prev acc =
         Some (Inr (acc + mset (map (\<lambda>j. (prev, int j)) [i..<length (params c)])))"
proof (induction "length (params c) - i" arbitrary: i acc rule: less_induct)
  case less
  show ?case
  proof (cases "i < length (params c)")
    case True
    have step: "orphaned_loop P c s i prev acc =
         orphaned_loop P c s (i + 1) prev (add_mset (prev, int i) acc)"
      using True none by (simp add: orphaned_loop_orphan)
    have "length (params c) - (i + 1) < length (params c) - i" using True by arith
    then have "orphaned_loop P c s (i + 1) prev (add_mset (prev, int i) acc) =
       Some (Inr (add_mset (prev, int i) acc +
          mset (map (\<lambda>j. (prev, int j)) [i + 1..<length (params c)])))"
      by (rule less)
    moreover have "[i..<length (params c)] = i # [i + 1..<length (params c)]"
      using True by (simp add: upt_conv_Cons)
    ultimately show ?thesis using step by simp
  next
    case False
    then show ?thesis by (simp add: orphaned_loop_end)
  qed
qed

text \<open>
  Claim C6. The scan starts at position 0 with the key \<open>-1\<close> and an empty multimap. At a
  position with an entry of the index map (naming a child that exists and holds a module)
  it takes the child index as the key and advances by the number of parameters of that
  child; at a position without an entry it records the position under the current key and
  advances by one; past the end of the flat list it returns the multimap. When every
  position has an entry (of a child with at least one parameter) the scan returns the empty
  multimap; when no position has one, every position is recorded under the key \<open>-1\<close>.
\<close>

theorem orphaned_params_scan:
  "Container_getOrphanedParamsIdxMap P c s = orphaned_loop P c s 0 (- 1) {#} \<and>
   (i < length (params c) \<and> childParamIdx c (int i) = Some (midx, pidx) \<and>
    0 \<le> midx \<and> midx < int (length (modules c)) \<and>
    ModuleWrapper_arrow (modules c ! nat midx) = Some a \<and> s a = Some m \<longrightarrow>
      orphaned_loop P c s i prev acc = orphaned_loop P c s (i + length (P m)) midx acc) \<and>
   (i < length (params c) \<and> childParamIdx c (int i) = None \<longrightarrow>
      orphaned_loop P c s i prev acc =
        orphaned_loop P c s (i + 1) prev (add_mset (prev, int i) acc)) \<and>
   (length (params c) \<le> i \<longrightarrow> orphaned_loop P c s i prev acc = Some (Inr acc)) \<and>
   ((\<forall>j < length (params c). \<exists>midx pidx a m.
        childParamIdx c (int j) = Some (midx, pidx) \<and>
        0 \<le> midx \<and> midx < int (length (modules c)) \<and>
        ModuleWrapper_arrow (modules c ! nat midx) = Some a \<and> s a = Some m \<and>
        0 < length (P m)) \<longrightarrow>
      Container_getOrphanedParamsIdxMap P c s = Some (Inr {#})) \<and>
   ((\<forall>j < length (params c). childParamIdx c (int j) = None) \<longrightarrow>
      Container_getOrphanedParamsIdxMap P c s =
        Some (Inr (mset (map (\<lambda>j. (- 1, int j)) [0..<length (params c)]))))"
proof -
  have 1: "Container_getOrphanedParamsIdxMap P c s = orphaned_loop P c s 0 (- 1) {#}"
    by (simp add: Container_getOrphanedParamsIdxMap_def)
  have 2: "i < length (params c) \<and> childParamIdx c (int i) = Some (midx, pidx) \<and>
    0 \<le> midx \<and> midx < int (length (modules c)) \<and>
    ModuleWrapper_arrow (modules c ! nat midx) = Some a \<and> s a = Some m \<longrightarrow>
      orphaned_loop P c s i prev acc = orphaned_loop P c s (i + length (P m)) midx acc"
    using orphaned_loop_entry [of i c midx pidx a s m P prev acc] by blast
  have 3: "i < length (params c) \<and> childParamIdx c (int i) = None \<longrightarrow>
      orphaned_loop P c s i prev acc =
        orphaned_loop P c s (i + 1) prev (add_mset (prev, int i) acc)"
    using orphaned_loop_orphan [of i c P s prev acc] by blast
  have 4: "length (params c) \<le> i \<longrightarrow> orphaned_loop P c s i prev acc = Some (Inr acc)"
    using orphaned_loop_end [of c i P s prev acc] by blast
  have 5: "(\<forall>j < length (params c). \<exists>midx pidx a m.
        childParamIdx c (int j) = Some (midx, pidx) \<and>
        0 \<le> midx \<and> midx < int (length (modules c)) \<and>
        ModuleWrapper_arrow (modules c ! nat midx) = Some a \<and> s a = Some m \<and>
        0 < length (P m)) \<longrightarrow>
      Container_getOrphanedParamsIdxMap P c s = Some (Inr {#})"
    unfolding 1 using orphaned_loop_all_registered [of c s P 0 "- 1" "{#}"] by blast
  have 6: "(\<forall>j < length (params c). childParamIdx c (int j) = None) \<longrightarrow>
      Container_getOrphanedParamsIdxMap P c s =
        Some (Inr (mset (map (\<lambda>j. (- 1, int j)) [0..<length (params c)])))"
    unfolding 1 using orphaned_loop_no_entries [of c P s 0 "- 1" "{#}"] by simp
  from 1 2 3 4 5 6 show ?thesis by blast
qed

theorem orphaned_params_scan_witness:
  "Container_getOrphanedParamsIdxMap (\<lambda>m. m) (example_two_children 6) example_children =
     Some (Inr {#(1, 5)#}) \<and>
   Container_getOrphanedParamsIdxMap (\<lambda>m. m) (example_two_children 5) example_children =
     Some (Inr {#})"
proof -
  let ?c = "example_two_children 6"
  let ?loop = "orphaned_loop (\<lambda>m. m) ?c example_children"
  note main = orphaned_params_scan [where P = "\<lambda>m. m" and s = example_children]
  have len: "length (params (example_two_children n)) = n" for n
    by (simp add: example_two_children_def)
  have "Container_getOrphanedParamsIdxMap (\<lambda>m. m) ?c example_children = ?loop 0 (- 1) {#}"
    using main [where c = ?c] by blast
  also have "?loop 0 (- 1) {#} = ?loop 2 0 {#}"
    using main [where c = ?c and i = 0 and midx = 0 and pidx = 0 and a = 1
        and m = "[example_param 0, example_param 1]" and prev = "- 1" and acc = "{#}",
        THEN conjunct2, THEN conjunct1]
    by (simp add: example_two_children_def example_children_def ModuleWrapper_arrow_def
        eval_nat_numeral)
  also have "?loop 2 0 {#} = ?loop 5 1 {#}"
    using main [where c = ?c and i = 2 and midx = 1 and pidx = 0 and a = 2
        and m = "[example_param 2, example_param 3, example_param 4]" and prev = 0
        and acc = "{#}", THEN conjunct2, THEN conjunct1]
    by (simp add: example_two_children_def example_children_def ModuleWrapper_arrow_def
        eval_nat_numeral)
  also have "?loop 5 1 {#} = ?loop 6 1 {#(1, 5)#}"
    using main [where c = ?c and i = 5 and prev = 1 and acc = "{#}",
        THEN conjunct2, THEN conjunct2, THEN conjunct1]
    by (simp add: example_two_children_def eval_nat_numeral)
  also have "?loop 6 1 {#(1, 5)#} = Some (Inr {#(1, 5)#})"
    using main [where c = ?c and i = 6 and prev = 1 and acc = "{#(1, 5)#}",
        THEN conjunct2, THEN conjunct2, THEN conjunct2, THEN conjunct1]
    by (simp add: example_two_children_def)
  finally have A: "Container_getOrphanedParamsIdxMap (\<lambda>m. m) ?c example_children =
     Some (Inr {#(1, 5)#})" .
  have wf: "\<forall>j < length (params (example_two_children 5)). \<exists>midx pidx a m.
        childParamIdx (example_two_children 5) (int j) = Some (midx, pidx) \<and>
        0 \<le> midx \<and> midx < int (length (modules (example_two_children 5))) \<and>
        ModuleWrapper_arrow (modules (example_two_children 5) ! nat midx) = Some a \<and>
        example_children a = Some m \<and> 0 < length m"
    unfolding len
    by (simp add: numeral_eq_Suc All_less_Suc example_two_children_def example_children_def
        ModuleWrapper_arrow_def)
  have B: "Container_getOrphanedParamsIdxMap (\<lambda>m. m) (example_two_children 5) example_children =
     Some (Inr {#})"
    using main [where c = "example_two_children 5", THEN conjunct2, THEN conjunct2,
        THEN conjunct2, THEN conjunct2, THEN conjunct1] wf by blast
  from A B show ?thesis by (rule conjI)
qed

subsection \<open>\<^verbatim>\<open>prettyString\<close>\<close>

lemma arrows_loop_eq:
  "arrows_loop i n ss = ss @ concat (map (\<lambda>k. '' -> ('' @ decimal k @ '')'') [i..<n])"
proof (induction i n ss rule: arrows_loop.induct)
  case (1 i n ss)
  show ?case
  proof (cases "i < n")
    case True
    then have "[i..<n] = i # [i + 1..<n]" by (simp add: upt_conv_Cons)
    with True "1" show ?thesis by (subst arrows_loop.simps) simp
  next
    case False
    then show ?thesis by (subst arrows_loop.simps) simp
  qed
qed

lemma lines_loop_eq:
  assumes "\<forall>w \<in> set ws. ModuleWrapper_arrow w \<noteq> None"
  shows "lines_loop child_pretty ws s i ss =
     Inr (ss @ concat (map (\<lambda>k. [CHR 0x0A, CHR 0x09] @ ''('' @ decimal k @ ''): '' @
                                  child_pretty (the (ModuleWrapper_arrow (ws ! k))) s)
                        [i..<length ws]))"
  using assms
proof (induction child_pretty ws s i ss rule: lines_loop.induct)
  case (1 child_pretty ws s i ss)
  show ?case
  proof (cases "i < length ws")
    case True
    then obtain a where a: "ModuleWrapper_arrow (ws ! i) = Some a"
      using "1.prems" by (metis nth_mem not_Some_eq)
    have u: "[i..<length ws] = i # [i + 1..<length ws]"
      using True by (simp add: upt_conv_Cons)
    have "lines_loop child_pretty ws s i ss =
        lines_loop child_pretty ws s (i + 1)
          (ss @ [CHR 0x0A, CHR 0x09] @ ''('' @ decimal i @ ''): '' @ child_pretty a s)"
      using True a by (subst lines_loop.simps) simp
    also have "\<dots> = Inr ((ss @ [CHR 0x0A, CHR 0x09] @ ''('' @ decimal i @ ''): '' @ child_pretty a s) @
        concat (map (\<lambda>k. [CHR 0x0A, CHR 0x09] @ ''('' @ decimal k @ ''): '' @
                                  child_pretty (the (ModuleWrapper_arrow (ws ! k))) s)
                        [i + 1..<length ws]))"
      using "1.IH" [OF True a "1.prems"] .
    finally show ?thesis unfolding u using a by simp
  next
    case False
    then show ?thesis by (subst lines_loop.simps) simp
  qed
qed

lemma lines_loop_prefix:
  "lines_loop child_pretty ws s i (p @ ss) =
     (case lines_loop child_pretty ws s i ss of Inl e \<Rightarrow> Inl e | Inr t \<Rightarrow> Inr (p @ t))"
proof (induction child_pretty ws s i ss rule: lines_loop.induct)
  case (1 child_pretty ws s i ss)
  show ?case
  proof (cases "i < length ws")
    case True
    show ?thesis
    proof (cases "ModuleWrapper_arrow (ws ! i)")
      case None
      then show ?thesis using True
        by (subst lines_loop.simps, subst (2) lines_loop.simps) simp
    next
      case (Some a)
      have l: "lines_loop child_pretty ws s i (p @ ss) =
          lines_loop child_pretty ws s (i + 1)
            (p @ (ss @ [CHR 0x0A, CHR 0x09] @ ''('' @ decimal i @ ''): '' @ child_pretty a s))"
        using True Some by (subst lines_loop.simps) simp
      have r: "lines_loop child_pretty ws s i ss =
          lines_loop child_pretty ws s (i + 1)
            (ss @ [CHR 0x0A, CHR 0x09] @ ''('' @ decimal i @ ''): '' @ child_pretty a s)"
        using True Some by (subst lines_loop.simps) simp
      show ?thesis unfolding l r using "1.IH" [OF True Some] .
    qed
  next
    case False
    then show ?thesis by (subst lines_loop.simps, subst (2) lines_loop.simps) simp
  qed
qed

text \<open>
  Claim C8. \<^verbatim>\<open>Sequential::prettyString\<close> is the label \<open>Sequential\<close> followed by what
  \<^verbatim>\<open>Container::prettyString\<close> returns. For a container whose \<open>n\<close> children all hold a
  module, that is the diagram \<open> [input -> (0) -> ... -> (n-1) -> output]\<close> followed, for
  each child in order, by a newline, a tab, the index in parentheses, a colon and the
  child's own \<^verbatim>\<open>prettyString\<close>. Both are functions of the container and the store and
  return nothing but the text.
\<close>

theorem prettyString_diagram:
  "Sequential_prettyString child_pretty c s =
     (case Container_prettyString child_pretty c s of
        Inl e \<Rightarrow> Inl e
      | Inr t \<Rightarrow> Inr (''Sequential'' @ t)) \<and>
   ((\<forall>w \<in> set (modules c). ModuleWrapper_arrow w \<noteq> None) \<longrightarrow>
      Container_prettyString child_pretty c s =
        Inr ('' [input'' @
             concat (map (\<lambda>k. '' -> ('' @ decimal k @ '')'') [0..<length (modules c)]) @
             '' -> output]'' @
             concat (map (\<lambda>k. [CHR 0x0A, CHR 0x09] @ ''('' @ decimal k @ ''): '' @
                               child_pretty (the (ModuleWrapper_arrow (modules c ! k))) s)
                     [0..<length (modules c)])))"
proof -
  have "arrows_loop 0 (length (modules c)) (''Sequential'' @ '' [input'') @ '' -> output]'' =
      ''Sequential'' @ (arrows_loop 0 (length (modules c)) ([] @ '' [input'') @ '' -> output]'')"
    by (simp add: arrows_loop_eq)
  then have 1: "Sequential_prettyString child_pretty c s =
     (case Container_prettyString child_pretty c s of
        Inl e \<Rightarrow> Inl e
      | Inr t \<Rightarrow> Inr (''Sequential'' @ t))"
    unfolding Sequential_prettyString_def Container_prettyString_def
    by (simp only: lines_loop_prefix)
  have 2: "(\<forall>w \<in> set (modules c). ModuleWrapper_arrow w \<noteq> None) \<longrightarrow>
      Container_prettyString child_pretty c s =
        Inr ('' [input'' @
             concat (map (\<lambda>k. '' -> ('' @ decimal k @ '')'') [0..<length (modules c)]) @
             '' -> output]'' @
             concat (map (\<lambda>k. [CHR 0x0A, CHR 0x09] @ ''('' @ decimal k @ ''): '' @
                               child_pretty (the (ModuleWrapper_arrow (modules c ! k))) s)
                     [0..<length (modules c)]))"
    by (simp add: Container_prettyString_def lines_loop_eq arrows_loop_eq)
  from 1 2 show ?thesis by (rule conjI)
qed

theorem prettyString_diagram_witness:
  "Sequential_prettyString (\<lambda>a t. if a = 1 then ''Linear'' else ''ReLU'')
      (example_two_children 5) example_children =
     Inr (''Sequential [input -> (0) -> (1) -> output]'' @
          [CHR 0x0A, CHR 0x09] @ ''(0): Linear'' @
          [CHR 0x0A, CHR 0x09] @ ''(1): ReLU'')"
proof -
  let ?p = "\<lambda>a (t :: Variable list store). if a = (1 :: nat) then ''Linear'' else ''ReLU''"
  note main = prettyString_diagram [where child_pretty = ?p and c = "example_two_children 5"
      and s = example_children]
  have mods: "\<forall>w \<in> set (modules (example_two_children 5)). ModuleWrapper_arrow w \<noteq> None"
    by (simp add: example_two_children_def ModuleWrapper_arrow_def)
  have len: "length (modules (example_two_children 5)) = Suc (Suc 0)"
    by (simp add: example_two_children_def)
  have d: "decimal 0 = ''0''" "decimal (Suc 0) = ''1''"
    by (simp_all add: decimal.simps digit_def)
  have A: "Container_prettyString ?p (example_two_children 5) example_children =
     Inr ('' [input -> (0) -> (1) -> output]'' @
          [CHR 0x0A, CHR 0x09] @ ''(0): Linear'' @
          [CHR 0x0A, CHR 0x09] @ ''(1): ReLU'')"
    using main [THEN conjunct2] mods unfolding len
    by (simp add: d) (simp add: example_two_children_def ModuleWrapper_arrow_def)
  show ?thesis
    using main [THEN conjunct1] unfolding A by simp
qed

end
